theory Spec2Isabelle
  imports Main "HOL-Library.Multiset"
begin

section \<open>Data model\<close>

text \<open>
  The enums \<open>ActionType\<close> and \<open>ActionStatus\<close> of the indexer. A TypeScript enum is not
  closed at run time: the value read back from the store, or computed by
  \<open>ActionType[name.toUpperCase()]\<close> in the CLI, can be any string or \<open>undefined\<close>.
  The constructor \<open>Unmapped\<close> stands for every such value outside the four members; the
  \<open>if\<close>/\<open>else if\<close> chains and the \<open>switch\<close> of the source fall through on it.
\<close>

datatype ActionType = ALLOCATE | UNALLOCATE | REALLOCATE | COLLECT | Unmapped string

datatype ActionStatus = QUEUED | APPROVED | PENDING | SUCCESS | FAILED | CANCELED

text \<open>
  \<open>ActionInput\<close> (what is submitted to the queue) and \<open>Action\<close> (a persisted row: the
  input plus the id the store assigned). Optional fields are \<open>option\<close>s: \<open>None\<close> is
  \<open>undefined\<close> in an input and \<open>null\<close> in a row.
\<close>

record ActionInput =
  actionType :: ActionType
  deploymentID :: "string option"
  allocationID :: "string option"
  amount :: "string option"
  poi :: "string option"
  force :: "bool option"
  source :: string
  reason :: string
  status :: ActionStatus
  priority :: "int option"

record Action = ActionInput +
  actionId :: int

text \<open>
  The action table of the relational store: its rows in table order and the next value
  of the id sequence.
\<close>

record ActionTable =
  rows :: "Action list"
  nextId :: int

datatype IndexerErrorCode = IE010 | IE013 | IE014 | IE015

datatype message =
    ZeroItemsUpdated ActionStatus
  | MissingRequiredParameters "string list"
  | InvalidBigNumber
  | InvalidDeploymentID
  | InvalidAddress
  | AllocationNotFound
  | ActiveAllocationExists string
  | NegativeAmount
  | ZeroAmount
  | InsufficientFreeStake int int
  | InsufficientFreeStakePlus int int int
  | AllocationIdExhausted
  | AlreadyExistsOnchain string
  | NotCreatedPaused
  | NotCreatedUnauthorized
  | AllocationNeverMined
  | CloseNeverMined
  | CannotCloseUntilEpoch string int
  | POINotResolved
  | AlreadyClosed
  | NotClosedPaused string
  | NotClosedUnauthorized string
  | NoActiveAllocation "string option"
  | SubgraphQueryFailed

text \<open>
  A thrown value: \<open>new Error(msg)\<close>, or \<open>indexerError(code, cause)\<close> wrapping a cause.
\<close>

datatype error = Error message | IndexerError IndexerErrorCode error

section \<open>The action store adapter\<close>

text \<open>
  No query of the source has an \<open>ORDER BY\<close>: the rows that a query returns come in an
  order of the store's choosing, which may differ from one state of the table to the
  next. A \<open>scan_order\<close> is that choice: \<open>ord rs xs\<close> is the order in which the store
  with rows \<open>rs\<close> returns the matching rows \<open>xs\<close>. The list \<open>rows\<close> of a table only
  names its rows; no query returns them in that order unless the store chooses so.
\<close>

type_synonym scan_order = "Action list \<Rightarrow> Action list \<Rightarrow> Action list"

text \<open>
  \<open>models.Action.update({status}, {where: {id: ids}, returning: true})\<close>: every row
  whose id is among \<open>ids\<close> gets the status; the updated rows are returned. There is no
  condition on the row's current status.
\<close>

definition Action_update ::
  "scan_order \<Rightarrow> ActionStatus \<Rightarrow> int list \<Rightarrow> ActionTable \<Rightarrow> Action list \<times> ActionTable" where
  "Action_update ord s ids t =
     (let rows' = map (\<lambda>a. if actionId a \<in> set ids then a\<lparr>status := s\<rparr> else a) (rows t)
      in (ord rows' (filter (\<lambda>a. actionId a \<in> set ids) rows'), t\<lparr>rows := rows'\<rparr>))"

text \<open>\<open>models.Action.findAll({where: {status}})\<close>.\<close>

definition Action_findAll :: "scan_order \<Rightarrow> ActionStatus \<Rightarrow> ActionTable \<Rightarrow> Action list" where
  "Action_findAll ord s t = ord (rows t) (filter (\<lambda>a. status a = s) (rows t))"



section \<open>The resolvers of the action queue\<close>


definition cancelActions ::
  "scan_order \<Rightarrow> int list \<Rightarrow> ActionTable \<Rightarrow> (error + Action list) \<times> ActionTable" where
  "cancelActions ord actionIDs t =
     (let (canceledActions, t') = Action_update ord CANCELED actionIDs t
      in if length canceledActions = 0 then (Inl (Error (ZeroItemsUpdated CANCELED)), t')
         else (Inr canceledActions, t'))"

definition approveActions ::
  "scan_order \<Rightarrow> int list \<Rightarrow> ActionTable \<Rightarrow> (error + Action list) \<times> ActionTable" where
  "approveActions ord actionIDs t =
     (let (updatedActions, t') = Action_update ord APPROVED actionIDs t
      in if length updatedActions = 0 then (Inl (Error (ZeroItemsUpdated APPROVED)), t')
         else (Inr updatedActions, t'))"

section \<open>The collaborators of the Allocation Lifecycle Manager\<close>

type_synonym SubgraphDeploymentID = string

record Allocation =
  allocId :: string
  subgraphDeployment :: SubgraphDeploymentID
  allocatedTokens :: int
  createdAtEpoch :: int
  closedAtEpoch :: int

datatype IndexingDecisionBasis = ALWAYS | OFFCHAIN

text \<open>
  Every call the manager makes on a collaborator is an event, recorded with its
  arguments in the order of the calls. The history of events is the only state the
  manager threads: reads of the network monitor and of the network subgraph, reads of
  the contracts (chain calls), transactions handed to the transaction manager, calls on
  the receipt collector and on the subgraph manager, and writes to the indexing-rule
  table.
\<close>

datatype event =
    NetworkMonitor_allocations
  | NetworkMonitor_allocation "string option"
  | NetworkMonitor_resolvePOI string "string option" bool
  | NetworkSubgraph_query
  | EpochManager_currentEpoch
  | Staking_getIndexerCapacity
  | Staking_getAllocationState string
  | SubgraphManager_ensure SubgraphDeploymentID "string option"
  | Staking_allocateFrom SubgraphDeploymentID int string
  | Staking_closeAllocation string string
  | Staking_closeAndAllocate string string SubgraphDeploymentID int string
  | ReceiptCollector_rememberAllocations "string list"
  | ReceiptCollector_collectReceipts string
  | IndexingRule_upsert SubgraphDeploymentID "int option" IndexingDecisionBasis
  | IndexingRule_findOne SubgraphDeploymentID

fun is_chain_call :: "event \<Rightarrow> bool" where
  "is_chain_call EpochManager_currentEpoch = True"
| "is_chain_call Staking_getIndexerCapacity = True"
| "is_chain_call (Staking_getAllocationState _) = True"
| "is_chain_call (Staking_allocateFrom _ _ _) = True"
| "is_chain_call (Staking_closeAllocation _ _) = True"
| "is_chain_call (Staking_closeAndAllocate _ _ _ _ _) = True"
| "is_chain_call _ = False"

fun is_transaction :: "event \<Rightarrow> bool" where
  "is_transaction (Staking_allocateFrom _ _ _) = True"
| "is_transaction (Staking_closeAllocation _ _) = True"
| "is_transaction (Staking_closeAndAllocate _ _ _ _ _) = True"
| "is_transaction _ = False"

fun is_mutation :: "event \<Rightarrow> bool" where
  "is_mutation (SubgraphManager_ensure _ _) = True"
| "is_mutation (ReceiptCollector_rememberAllocations _) = True"
| "is_mutation (ReceiptCollector_collectReceipts _) = True"
| "is_mutation (IndexingRule_upsert _ _ _) = True"
| "is_mutation e = is_transaction e"

text \<open>The logs of a transaction receipt that the manager decodes.\<close>

datatype receipt_log =
    AllocationCreated string int int
  | AllocationClosed string int
  | RewardsAssigned int
  | OtherLog

datatype receipt = Paused | Unauthorized | Receipt "receipt_log list"

text \<open>
  \<open>events.find(event => event.topics.includes(topic))\<close> followed by \<open>decodeEventLog\<close>:
  the fields of the first log of the kind, if there is one.
\<close>

fun findAllocationCreated :: "receipt_log list \<Rightarrow> (string \<times> int \<times> int) option" where
  "findAllocationCreated [] = None"
| "findAllocationCreated (AllocationCreated a tokens epoch # _) = Some (a, tokens, epoch)"
| "findAllocationCreated (_ # evs) = findAllocationCreated evs"

fun findAllocationClosed :: "receipt_log list \<Rightarrow> (string \<times> int) option" where
  "findAllocationClosed [] = None"
| "findAllocationClosed (AllocationClosed a tokens # _) = Some (a, tokens)"
| "findAllocationClosed (_ # evs) = findAllocationClosed evs"

fun findRewardsAssigned :: "receipt_log list \<Rightarrow> int option" where
  "findRewardsAssigned [] = None"
| "findRewardsAssigned (RewardsAssigned n # _) = Some n"
| "findRewardsAssigned (_ # evs) = findRewardsAssigned evs"

text \<open>
  The environment: what each collaborator answers. An answer is a function of the
  history up to and including the call (whose event carries the arguments), so that the
  chain and the network may answer differently at every call. The three parsers of
  libraries (\<open>BigNumber.from\<close>, \<open>new SubgraphDeploymentID\<close>, \<open>toAddress\<close>) and
  \<open>uniqueAllocationID\<close> are pure; \<open>None\<close> means that the call throws. The arguments
  of the parsers are nullable at run time (the source passes them under a non-null
  assertion, which checks nothing). \<open>scanOrder\<close> is the order in which the action store
  returns the rows of a query.
\<close>

record env =
  BigNumber_from :: "string option \<Rightarrow> int option"
  SubgraphDeploymentID_new :: "string option \<Rightarrow> SubgraphDeploymentID option"
  toAddress :: "string option \<Rightarrow> string option"
  uniqueAllocationID :: "int \<Rightarrow> SubgraphDeploymentID \<Rightarrow> string list \<Rightarrow> string option"
  networkMonitor_allocations :: "event list \<Rightarrow> Allocation list"
  networkMonitor_allocation :: "event list \<Rightarrow> Allocation option"
  networkMonitor_resolvePOI :: "event list \<Rightarrow> string option"
  networkSubgraph_query :: "event list \<Rightarrow> Allocation list option"
  currentEpoch :: "event list \<Rightarrow> int"
  getIndexerCapacity :: "event list \<Rightarrow> int"
  getAllocationState :: "event list \<Rightarrow> nat"
  executeTransaction :: "event list \<Rightarrow> receipt"
  collectReceipts :: "event list \<Rightarrow> bool"
  scanOrder :: scan_order

text \<open>What a call of the manager returns (token amounts unformatted).\<close>

datatype result =
    CreateAllocationResult SubgraphDeploymentID string int
  | CloseAllocationResult string int int bool
  | ReallocateAllocationResult string int bool string int
  | CollectResult bool
  | Undefined

section \<open>The Allocation Lifecycle Manager\<close>

subsection \<open>allocate\<close>

text \<open>The body of the \<open>try\<close> block of \<open>allocate\<close>; its \<open>catch\<close> rethrows the error.\<close>

definition allocate_try ::
  "env \<Rightarrow> SubgraphDeploymentID \<Rightarrow> int \<Rightarrow> string option \<Rightarrow> Allocation list \<Rightarrow> event list
     \<Rightarrow> (error + result) \<times> event list" where
  "allocate_try e deployment amt indexNode activeAllocations h1 =
    (let h2 = h1 @ [EpochManager_currentEpoch];
         epoch = currentEpoch e h2;
         h3 = h2 @ [Staking_getIndexerCapacity];
         freeStake = getIndexerCapacity e h3
     in if freeStake < amt
        then (Inl (IndexerError IE013 (Error (InsufficientFreeStake amt freeStake))), h3)
        else
          (let h4 = h3 @ [SubgraphManager_ensure deployment indexNode]
          in (case uniqueAllocationID e epoch deployment (map allocId activeAllocations) of
               None \<Rightarrow> (Inl (Error AllocationIdExhausted), h4)
             | Some allocationId \<Rightarrow>
                 let h5 = h4 @ [Staking_getAllocationState allocationId]
                 in if getAllocationState e h5 \<noteq> 0
                    then (Inl (Error (AlreadyExistsOnchain allocationId)), h5)
                    else
                      (let h6 = h5 @ [Staking_allocateFrom deployment amt allocationId]
                      in (case executeTransaction e h6 of
                           Paused \<Rightarrow> (Inl (Error NotCreatedPaused), h6)
                         | Unauthorized \<Rightarrow> (Inl (Error NotCreatedUnauthorized), h6)
                         | Receipt events \<Rightarrow>
                             (case findAllocationCreated events of
                                None \<Rightarrow> (Inl (IndexerError IE014 (Error AllocationNeverMined)), h6)
                              | Some (createdId, createdTokens, createdEpoch) \<Rightarrow>
                                  (let h7 = h6 @ [ReceiptCollector_rememberAllocations [createdId]];
                                       h8 = h7 @ [IndexingRule_upsert deployment (Some amt) ALWAYS];
                                       h9 = h8 @ [IndexingRule_findOne deployment]
                                   in (Inr (CreateAllocationResult deployment createdId amt), h9))))))))"

definition allocate ::
  "env \<Rightarrow> SubgraphDeploymentID \<Rightarrow> int \<Rightarrow> string option \<Rightarrow> event list
     \<Rightarrow> (error + result) \<times> event list" where
  "allocate e deployment amt indexNode h0 =
    (let h1 = h0 @ [NetworkMonitor_allocations];
         activeAllocations = networkMonitor_allocations e h1
     in case find (\<lambda>allocation. subgraphDeployment allocation = deployment) activeAllocations of
          Some allocation \<Rightarrow>
            (Inl (Error (ActiveAllocationExists (subgraphDeployment allocation))), h1)
        | None \<Rightarrow>
            if amt < 0 then (Inl (Error NegativeAmount), h1)
            else if amt = 0 then (Inl (Error ZeroAmount), h1)
            else allocate_try e deployment amt indexNode activeAllocations h1)"

subsection \<open>unallocate\<close>

definition unallocate_try ::
  "env \<Rightarrow> Allocation \<Rightarrow> string option \<Rightarrow> bool \<Rightarrow> event list \<Rightarrow> (error + result) \<times> event list" where
  "unallocate_try e allocation upoi frc h1 =
    (let h2 = h1 @ [EpochManager_currentEpoch];
         epoch = currentEpoch e h2
     in if createdAtEpoch allocation = epoch
        then (Inl (Error (CannotCloseUntilEpoch (allocId allocation) (epoch + 1))), h2)
        else
          (let h3 = h2 @ [NetworkMonitor_resolvePOI (allocId allocation) upoi frc]
          in (case networkMonitor_resolvePOI e h3 of
               None \<Rightarrow> (Inl (Error POINotResolved), h3)
             | Some poi' \<Rightarrow>
                 let h4 = h3 @ [Staking_getAllocationState (allocId allocation)]
                 in if getAllocationState e h4 \<noteq> 1 then (Inl (Error AlreadyClosed), h4)
                    else
                      (let h5 = h4 @ [Staking_closeAllocation (allocId allocation) poi']
                      in (case executeTransaction e h5 of
                           Paused \<Rightarrow> (Inl (Error (NotClosedPaused (allocId allocation))), h5)
                         | Unauthorized \<Rightarrow>
                             (Inl (Error (NotClosedUnauthorized (allocId allocation))), h5)
                         | Receipt events \<Rightarrow>
                             (case findAllocationClosed events of
                                None \<Rightarrow> (Inl (IndexerError IE014 (Error CloseNeverMined)), h5)
                              | Some (closedId, closedTokens) \<Rightarrow>
                                  (let rewardsAssigned =
                                        (case findRewardsAssigned events of
                                           Some n \<Rightarrow> n | None \<Rightarrow> 0);
                                      h6 = h5 @ [ReceiptCollector_collectReceipts (allocId allocation)];
                                      isCollectingQueryFees = collectReceipts e h6;
                                      h7 = h6 @ [IndexingRule_upsert (subgraphDeployment allocation)
                                                   None OFFCHAIN];
                                      h8 = h7 @ [IndexingRule_findOne (subgraphDeployment allocation)]
                                  in (Inr (CloseAllocationResult closedId closedTokens
                                             rewardsAssigned isCollectingQueryFees), h8))))))))"

text \<open>
  The allocation is read before the \<open>try\<close>; whatever the \<open>try\<close> block throws is
  wrapped as \<open>indexerError(IE015, error)\<close> by the \<open>catch\<close>.
\<close>

definition unallocate ::
  "env \<Rightarrow> string option \<Rightarrow> string option \<Rightarrow> bool \<Rightarrow> event list \<Rightarrow> (error + result) \<times> event list" where
  "unallocate e allocID upoi frc h0 =
    (let h1 = h0 @ [NetworkMonitor_allocation allocID]
     in case networkMonitor_allocation e h1 of
          None \<Rightarrow> (Inl (Error AllocationNotFound), h1)
        | Some allocation \<Rightarrow>
            (case unallocate_try e allocation upoi frc h1 of
               (Inl err, h) \<Rightarrow> (Inl (IndexerError IE015 err), h)
             | (Inr r, h) \<Rightarrow> (Inr r, h)))"

subsection \<open>reallocate\<close>

text \<open>
  The \<open>try\<close> block of \<open>reallocate\<close>, in two parts: the checks up to the amount, and
  the capacity check with all that follows it. The \<open>catch\<close> rethrows the error.
\<close>

definition reallocate_submit ::
  "env \<Rightarrow> Allocation \<Rightarrow> Allocation list \<Rightarrow> string \<Rightarrow> int \<Rightarrow> int \<Rightarrow> event list
     \<Rightarrow> (error + result) \<times> event list" where
  "reallocate_submit e allocation activeAllocations allocationPOI epoch amt h4 =
    (let h5 = h4 @ [Staking_getIndexerCapacity];
         freeStake = getIndexerCapacity e h5;
         postCloseFreeStake = freeStake + allocatedTokens allocation
     in if postCloseFreeStake < amt
        then (Inl (IndexerError IE013
                (Error (InsufficientFreeStakePlus amt freeStake (allocatedTokens allocation)))), h5)
        else
          (case uniqueAllocationID e epoch (subgraphDeployment allocation)
                 (map allocId activeAllocations) of
            None \<Rightarrow> (Inl (Error AllocationIdExhausted), h5)
          | Some newAllocationId \<Rightarrow>
              let h6 = h5 @ [Staking_getAllocationState newAllocationId]
              in if getAllocationState e h6 \<noteq> 0
                 then (Inl (Error (AlreadyExistsOnchain newAllocationId)), h6)
                 else
                   (let h7 = h6 @ [Staking_closeAndAllocate (allocId allocation) allocationPOI
                                    (subgraphDeployment allocation) amt newAllocationId]
                   in (case executeTransaction e h7 of
                        Paused \<Rightarrow> (Inl (Error (NotClosedPaused newAllocationId)), h7)
                      | Unauthorized \<Rightarrow> (Inl (Error (NotClosedUnauthorized newAllocationId)), h7)
                      | Receipt events \<Rightarrow>
                          (case findAllocationCreated events of
                             None \<Rightarrow> (Inl (IndexerError IE014 (Error AllocationNeverMined)), h7)
                           | Some (createdId, createdTokens, createdEpoch) \<Rightarrow>
                               (case findAllocationClosed events of
                                  None \<Rightarrow> (Inl (IndexerError IE014 (Error CloseNeverMined)), h7)
                                | Some (closedId, closedTokens) \<Rightarrow>
                                    (let rewardsAssigned =
                                          (case findRewardsAssigned events of
                                             Some n \<Rightarrow> n | None \<Rightarrow> 0);
                                        h8 = h7 @ [ReceiptCollector_collectReceipts (allocId allocation)];
                                        isCollectingQueryFees = collectReceipts e h8;
                                        h9 = h8 @ [IndexingRule_upsert (subgraphDeployment allocation)
                                                     (Some amt) ALWAYS];
                                        h10 = h9 @ [IndexingRule_findOne (subgraphDeployment allocation)]
                                    in (Inr (ReallocateAllocationResult closedId rewardsAssigned
                                               isCollectingQueryFees createdId createdTokens), h10))))))))"

definition reallocate_try ::
  "env \<Rightarrow> Allocation \<Rightarrow> Allocation list \<Rightarrow> string option \<Rightarrow> int \<Rightarrow> bool \<Rightarrow> event list
     \<Rightarrow> (error + result) \<times> event list" where
  "reallocate_try e allocation activeAllocations upoi amt frc h1 =
    (let h2 = h1 @ [EpochManager_currentEpoch];
         epoch = currentEpoch e h2
     in if createdAtEpoch allocation = epoch
        then (Inl (Error (CannotCloseUntilEpoch (allocId allocation) (epoch + 1))), h2)
        else
          (let h3 = h2 @ [NetworkMonitor_resolvePOI (allocId allocation) upoi frc]
          in (case networkMonitor_resolvePOI e h3 of
               None \<Rightarrow> (Inl (Error POINotResolved), h3)
             | Some allocationPOI \<Rightarrow>
                 let h4 = h3 @ [Staking_getAllocationState (allocId allocation)]
                 in if getAllocationState e h4 \<noteq> 1 then (Inl (Error AlreadyClosed), h4)
                    else if amt < 0 then (Inl (Error NegativeAmount), h4)
                    else if amt = 0 then (Inl (Error ZeroAmount), h4)
                    else reallocate_submit e allocation activeAllocations allocationPOI epoch amt h4)))"

text \<open>
  Before the \<open>try\<close>: the active allocations are fetched from the network subgraph (a
  failed query is \<open>indexerError(IE010, error)\<close>) and the allocation is looked up among
  them by its address.
\<close>

definition reallocate ::
  "env \<Rightarrow> string option \<Rightarrow> string option \<Rightarrow> int \<Rightarrow> bool \<Rightarrow> event list
     \<Rightarrow> (error + result) \<times> event list" where
  "reallocate e allocID upoi amt frc h0 =
    (let h1 = h0 @ [NetworkSubgraph_query]
     in case networkSubgraph_query e h1 of
          None \<Rightarrow> (Inl (IndexerError IE010 (Error SubgraphQueryFailed)), h1)
        | Some activeAllocations \<Rightarrow>
            (case toAddress e allocID of
               None \<Rightarrow> (Inl (Error InvalidAddress), h1)
             | Some allocationAddress \<Rightarrow>
                 (case find (\<lambda>allocation. allocId allocation = allocationAddress) activeAllocations of
                    None \<Rightarrow> (Inl (Error (NoActiveAllocation allocID)), h1)
                  | Some allocation \<Rightarrow>
                      reallocate_try e allocation activeAllocations upoi amt frc h1)))"

subsection \<open>collect\<close>

definition collect :: "env \<Rightarrow> string option \<Rightarrow> event list \<Rightarrow> (error + result) \<times> event list" where
  "collect e allocID h0 =
    (let h1 = h0 @ [NetworkMonitor_allocation allocID]
     in case networkMonitor_allocation e h1 of
          None \<Rightarrow> (Inl (Error AllocationNotFound), h1)
        | Some allocation \<Rightarrow>
            let h2 = h1 @ [ReceiptCollector_collectReceipts (allocId allocation)]
            in (Inr (CollectResult (collectReceipts e h2)), h2))"

section \<open>The Action Execution Coordinator\<close>

text \<open>
  \<open>ActionManager.takeAction\<close>: an \<open>if\<close>/\<open>else if\<close> chain over the four types with no
  final \<open>else\<close>; on any other value the function falls off its end and returns
  \<open>undefined\<close>. The arguments are built before the call, so a parser that throws
  prevents the call.
\<close>

definition takeAction :: "env \<Rightarrow> Action \<Rightarrow> event list \<Rightarrow> (error + result) \<times> event list" where
  "takeAction e action h =
    (if actionType action = ALLOCATE then
       (case SubgraphDeploymentID_new e (deploymentID action) of
          None \<Rightarrow> (Inl (Error InvalidDeploymentID), h)
        | Some deployment \<Rightarrow>
            (case BigNumber_from e (amount action) of
               None \<Rightarrow> (Inl (Error InvalidBigNumber), h)
             | Some amt \<Rightarrow> allocate e deployment amt None h))
     else if actionType action = UNALLOCATE then
       unallocate e (allocationID action) (poi action)
         (case force action of None \<Rightarrow> False | Some f \<Rightarrow> f) h
     else if actionType action = REALLOCATE then
       (case BigNumber_from e (amount action) of
          None \<Rightarrow> (Inl (Error InvalidBigNumber), h)
        | Some amt \<Rightarrow>
            reallocate e (allocationID action) (poi action) amt
              (case force action of None \<Rightarrow> False | Some f \<Rightarrow> f) h)
     else if actionType action = COLLECT then
       collect e (allocationID action) h
     else (Inr Undefined, h))"

text \<open>
  The state of one run of \<open>executeActions\<close>: the action table (inside the serializable
  transaction), the history of collaborator calls, and the local array
  \<open>updatedActions\<close> that the function returns. \<open>taken\<close> is a trace, not a value of the
  program: the actions \<open>takeAction\<close> was called on, in order.
\<close>

record exec =
  table :: ActionTable
  history :: "event list"
  updatedActions :: "Action list"
  taken :: "Action list"

text \<open>
  The body of the \<open>for\<close> loops: \<open>try { takeAction; update SUCCESS } catch { update
  FAILED }\<close>. In both branches the source evaluates
  \<open>updatedActions.concat(updatedAction)\<close> and discards its value;
  \<open>Array.prototype.concat\<close> returns a new array and leaves its receiver unchanged.
\<close>

definition executeOne :: "env \<Rightarrow> Action \<Rightarrow> exec \<Rightarrow> exec" where
  "executeOne e action s =
    (case takeAction e action (history s) of
       (Inr r, h') \<Rightarrow>
         (let (updatedAction, t') = Action_update (scanOrder e) SUCCESS [actionId action] (table s);
              discarded = updatedActions s @ updatedAction
          in s\<lparr>table := t', history := h', taken := taken s @ [action]\<rparr>)
     | (Inl err, h') \<Rightarrow>
         (let (updatedAction, t') = Action_update (scanOrder e) FAILED [actionId action] (table s);
              discarded = updatedActions s @ updatedAction
          in s\<lparr>table := t', history := h', taken := taken s @ [action]\<rparr>))"

text \<open>\<open>for (const action of actions) { ... }\<close>: strictly in order, one after the other.\<close>

fun executeEach :: "env \<Rightarrow> Action list \<Rightarrow> exec \<Rightarrow> exec" where
  "executeEach e [] s = s"
| "executeEach e (action # actions) s = executeEach e actions (executeOne e action s)"

text \<open>
  \<open>ActionManager.executeActions(actionIDs, force)\<close>. Its two loops are the same loop,
  first over the approved actions (unless \<open>force\<close>), then over the queued actions
  whose id is among \<open>actionIDs\<close>. The value returned is \<open>updatedActions\<close> of the final
  state.
\<close>

definition executeActions :: "env \<Rightarrow> int list \<Rightarrow> bool \<Rightarrow> ActionTable \<Rightarrow> event list \<Rightarrow> exec" where
  "executeActions e actionIDs frc t h =
    (let s0 = \<lparr> table = t, history = h, updatedActions = [], taken = [] \<rparr>;
         s1 = (if \<not> frc
               then executeEach e (Action_findAll (scanOrder e) APPROVED (table s0)) s0
               else s0);
         queuedActionsSpecified =
           filter (\<lambda>action. actionId action \<in> set actionIDs)
             (Action_findAll (scanOrder e) QUEUED (table s1))
     in executeEach e queuedActionsSpecified s1)"

section \<open>Building action inputs in the CLI\<close>

record GenericActionInputParams =
  target :: "string option"
  param1 :: "string option"
  param2 :: "string option"
  param3 :: "string option"

text \<open>\<open>{ ...actionParams } as Record<string, unknown>\<close>: the parameters by key.\<close>

definition asRecord :: "GenericActionInputParams \<Rightarrow> string \<Rightarrow> string option" where
  "asRecord p k =
    (if k = ''target'' then target p
     else if k = ''param1'' then param1 p
     else if k = ''param2'' then param2 p
     else if k = ''param3'' then param3 p
     else None)"

text \<open>
  Modelled from the spec: \<open>validateRequiredParams\<close> of the CLI's command helpers, which
  is not among the sources. The spec says that an incomplete action fails with a validation
  error listing every missing required field: the required keys whose value is missing
  are collected in order, and the call throws when there is one.
\<close>

definition validateRequiredParams :: "(string \<Rightarrow> string option) \<Rightarrow> string list \<Rightarrow> error + unit" where
  "validateRequiredParams parameters requiredParams =
    (let missingFields = filter (\<lambda>k. parameters k = None) requiredParams
     in if length missingFields \<ge> 1 then Inl (Error (MissingRequiredParameters missingFields))
        else Inr ())"

definition validateActionInput :: "ActionType \<Rightarrow> GenericActionInputParams \<Rightarrow> error + unit" where
  "validateActionInput ty actionParams =
    (let requiredFields =
           (if ty = ALLOCATE then [] @ [''target'', ''param1'']
            else if ty = UNALLOCATE then [] @ [''target'']
            else if ty = REALLOCATE then [] @ [''target'', ''param1'']
            else if ty = COLLECT then [] @ [''target'']
            else [])
     in validateRequiredParams (asRecord actionParams) requiredFields)"

text \<open>
  \<open>buildActionInput\<close>: validation first, then a \<open>switch\<close> over the type with no
  default; \<open>Inr None\<close> is the \<open>undefined\<close> that falls out of the \<open>switch\<close>.
\<close>

definition buildActionInput ::
  "ActionType \<Rightarrow> GenericActionInputParams \<Rightarrow> string \<Rightarrow> string \<Rightarrow> ActionStatus \<Rightarrow> int
     \<Rightarrow> error + ActionInput option" where
  "buildActionInput ty actionParams src rsn st prio =
    (case validateActionInput ty actionParams of
       Inl err \<Rightarrow> Inl err
     | Inr _ \<Rightarrow>
        (case ty of
           ALLOCATE \<Rightarrow>
             Inr (Some \<lparr> actionType = ty, deploymentID = target actionParams, allocationID = None,
                         amount = param1 actionParams, poi = None, force = None,
                         source = src, reason = rsn, status = st, priority = Some prio \<rparr>)
         | UNALLOCATE \<Rightarrow>
             Inr (Some \<lparr> actionType = ty, deploymentID = None, allocationID = target actionParams,
                         amount = None, poi = param1 actionParams,
                         force = Some (param2 actionParams = Some ''true''),
                         source = src, reason = rsn, status = st, priority = Some prio \<rparr>)
         | REALLOCATE \<Rightarrow>
             Inr (Some \<lparr> actionType = ty, deploymentID = None, allocationID = target actionParams,
                         amount = param1 actionParams, poi = param2 actionParams,
                         force = Some (param3 actionParams = Some ''true''),
                         source = src, reason = rsn, status = st, priority = Some prio \<rparr>)
         | COLLECT \<Rightarrow>
             Inr (Some \<lparr> actionType = ty, deploymentID = None, allocationID = target actionParams,
                         amount = None, poi = None, force = None,
                         source = src, reason = rsn, status = st, priority = Some prio \<rparr>)
         | Unmapped _ \<Rightarrow> Inr None))"


section \<open>A concrete environment and concrete actions\<close>

text \<open>
  One active allocation \<open>0xa1\<close> of 100 tokens on deployment \<open>QmA\<close>, created in epoch 1;
  the current epoch is 5 and the free stake 50000. The chain knows no other allocation,
  and every transaction is mined with the logs expected of it. The action store returns
  the rows of a query last row first.
\<close>

definition alloc1 :: Allocation where
  "alloc1 = \<lparr> allocId = ''0xa1'', subgraphDeployment = ''QmA'', allocatedTokens = 100,
               createdAtEpoch = 1, closedAtEpoch = 0 \<rparr>"

definition env0 :: env where
  "env0 =
    \<lparr> BigNumber_from =
        (\<lambda>s. if s = Some ''10000'' then Some 10000
             else if s = Some ''27000'' then Some 27000
             else if s = Some ''0'' then Some 0
             else if s = Some ''60000'' then Some 60000
             else None),
      SubgraphDeploymentID_new = (\<lambda>s. s),
      toAddress = (\<lambda>s. s),
      uniqueAllocationID = (\<lambda>epoch deployment existing. Some ''0xnew''),
      networkMonitor_allocations = (\<lambda>h. [alloc1]),
      networkMonitor_allocation =
        (\<lambda>h. case last h of
                NetworkMonitor_allocation i \<Rightarrow> if i = Some ''0xa1'' then Some alloc1 else None
              | _ \<Rightarrow> None),
      networkMonitor_resolvePOI = (\<lambda>h. Some ''0xpoi''),
      networkSubgraph_query = (\<lambda>h. Some [alloc1]),
      currentEpoch = (\<lambda>h. 5),
      getIndexerCapacity = (\<lambda>h. 50000),
      getAllocationState =
        (\<lambda>h. case last h of
                Staking_getAllocationState i \<Rightarrow> if i = ''0xa1'' then 1 else 0
              | _ \<Rightarrow> 0),
      executeTransaction =
        (\<lambda>h. case last h of
                Staking_allocateFrom d a i \<Rightarrow> Receipt [AllocationCreated i a 5]
              | Staking_closeAllocation i p \<Rightarrow> Receipt [AllocationClosed i 100, RewardsAssigned 7]
              | Staking_closeAndAllocate i p d a n \<Rightarrow>
                  Receipt [AllocationCreated n a 5, AllocationClosed i 100]
              | _ \<Rightarrow> Paused),
      collectReceipts = (\<lambda>h. True),
      scanOrder = (\<lambda>rs xs. rev xs) \<rparr>"

definition mkAction :: "int \<Rightarrow> ActionType \<Rightarrow> string option \<Rightarrow> string option \<Rightarrow> string option
    \<Rightarrow> ActionStatus \<Rightarrow> Action" where
  "mkAction n ty dep alloc amt st =
    \<lparr> actionType = ty, deploymentID = dep, allocationID = alloc, amount = amt, poi = None,
      force = Some False, source = ''indexerAgent'', reason = ''indexingRule'', status = st,
      priority = Some 0, actionId = n \<rparr>"

definition act1 :: Action where
  "act1 = mkAction 1 ALLOCATE (Some ''QmB'') None (Some ''10000'') QUEUED"

definition act2 :: Action where
  "act2 = mkAction 2 UNALLOCATE None (Some ''0xdead'') None QUEUED"

definition act3 :: Action where
  "act3 = mkAction 3 REALLOCATE None (Some ''0xa1'') (Some ''27000'') QUEUED"

definition act4 :: Action where
  "act4 = mkAction 4 COLLECT None (Some ''0xa1'') None QUEUED"

definition table0 :: ActionTable where
  "table0 = \<lparr> rows = [act1, act2, act3, act4], nextId = 5 \<rparr>"

section \<open>Notions used in the statements\<close>

text \<open>The status the loop records for the outcome of a dispatch.\<close>

definition recorded :: "error + result \<Rightarrow> ActionStatus" where
  "recorded r = (case r of Inl _ \<Rightarrow> FAILED | Inr _ \<Rightarrow> SUCCESS)"

text \<open>
  A row before and after a loop over actions whose ids are \<open>I\<close>: a row with one of the
  ids has got a final status, every other row is the same.
\<close>

definition touched :: "int set \<Rightarrow> Action \<Rightarrow> Action \<Rightarrow> bool" where
  "touched I x y =
    (if actionId x \<in> I then y = x\<lparr>status := SUCCESS\<rparr> \<or> y = x\<lparr>status := FAILED\<rparr> else y = x)"

text \<open>The example table reduced to action 1, approved, and action 2, queued.\<close>

definition mixed_table :: ActionTable where
  "mixed_table = \<lparr> rows = [act1\<lparr>status := APPROVED\<rparr>, act2], nextId = 3 \<rparr>"

text \<open>The example table reduced to action 1, canceled, and action 2, queued.\<close>

definition canceled_table :: ActionTable where
  "canceled_table = \<lparr> rows = [act1\<lparr>status := CANCELED\<rparr>, act2], nextId = 3 \<rparr>"

text \<open>The state in which \<open>executeActions\<close> starts on the example table.\<close>

definition exec0 :: exec where
  "exec0 = \<lparr> table = table0, history = [], updatedActions = [], taken = [] \<rparr>"




section \<open>Facts about the store adapter\<close>

lemma rows_Action_update:
  "rows (snd (Action_update ord s ids t)) =
     map (\<lambda>a. if actionId a \<in> set ids then a\<lparr>status := s\<rparr> else a) (rows t)"
  by (simp add: Action_update_def Let_def)

section \<open>Facts about the execution loop\<close>

lemma executeOne_taken: "taken (executeOne e a s) = taken s @ [a]"
  by (simp add: executeOne_def split_beta Let_def split: sum.splits prod.splits)

lemma executeOne_updatedActions: "updatedActions (executeOne e a s) = updatedActions s"
  by (simp add: executeOne_def split_beta Let_def split: sum.splits prod.splits)

lemma executeOne_history: "history (executeOne e a s) = snd (takeAction e a (history s))"
  by (simp add: executeOne_def split_beta Let_def split: sum.splits prod.splits)

lemma executeOne_rows:
  "rows (table (executeOne e a s)) =
     map (\<lambda>x. if actionId x = actionId a
               then x\<lparr>status := recorded (fst (takeAction e a (history s)))\<rparr> else x)
       (rows (table s))"
proof (cases "takeAction e a (history s)")
  case (Pair r h')
  show ?thesis
  proof (cases r)
    case (Inl err)
    with Pair show ?thesis
      using rows_Action_update[of "scanOrder e" FAILED "[actionId a]" "table s"]
      by (simp add: executeOne_def split_beta Let_def recorded_def)
  next
    case (Inr v)
    with Pair show ?thesis
      using rows_Action_update[of "scanOrder e" SUCCESS "[actionId a]" "table s"]
      by (simp add: executeOne_def split_beta Let_def recorded_def)
  qed
qed

lemma recorded_cases: "recorded r = SUCCESS \<or> recorded r = FAILED"
  by (cases r) (simp_all add: recorded_def)

lemma executeOne_touched:
  "list_all2 (touched {actionId a}) (rows (table s)) (rows (table (executeOne e a s)))"
  using recorded_cases[of "fst (takeAction e a (history s))"]
  by (auto simp: executeOne_rows list_all2_map2 touched_def intro!: list_all2_same[THEN iffD2])

lemma touched_actionId: "touched I x y \<Longrightarrow> actionId y = actionId x"
  by (auto simp: touched_def split: if_splits)

lemma touched_trans:
  "touched I x y \<Longrightarrow> touched J y z \<Longrightarrow> touched (I \<union> J) x z"
  by (auto simp: touched_def split: if_splits)

lemma executeEach_taken: "taken (executeEach e as s) = taken s @ as"
  by (induction as arbitrary: s) (simp_all add: executeOne_taken)

lemma executeEach_updatedActions: "updatedActions (executeEach e as s) = updatedActions s"
  by (induction as arbitrary: s) (simp_all add: executeOne_updatedActions)

lemma executeEach_append:
  "executeEach e (xs @ ys) s = executeEach e ys (executeEach e xs s)"
  by (induction xs arbitrary: s) simp_all

lemma executeEach_touched:
  "list_all2 (touched (actionId ` set as)) (rows (table s)) (rows (table (executeEach e as s)))"
proof (induction as arbitrary: s)
  case Nil
  show ?case by (simp add: list_all2_same touched_def)
next
  case (Cons a as)
  have step: "list_all2 (touched {actionId a}) (rows (table s)) (rows (table (executeOne e a s)))"
    by (rule executeOne_touched)
  have rest: "list_all2 (touched (actionId ` set as)) (rows (table (executeOne e a s)))
                (rows (table (executeEach e as (executeOne e a s))))"
    by (rule Cons.IH)
  have "list_all2 (touched ({actionId a} \<union> actionId ` set as)) (rows (table s))
          (rows (table (executeEach e as (executeOne e a s))))"
    using step rest by (rule list_all2_trans[rotated]) (rule touched_trans)
  then show ?case by simp
qed

lemma touched_untouched_mem:
  "list_all2 (touched I) xs ys \<Longrightarrow> x \<in> set xs \<Longrightarrow> actionId x \<notin> I \<Longrightarrow> x \<in> set ys"
  by (induction rule: list_all2_induct) (auto simp: touched_def)

lemma touched_origin:
  "list_all2 (touched I) xs ys \<Longrightarrow> y \<in> set ys \<Longrightarrow> \<exists>x\<in>set xs. touched I x y"
  by (induction rule: list_all2_induct) auto

lemma touched_ids: "list_all2 (touched I) xs ys \<Longrightarrow> map actionId ys = map actionId xs"
  by (induction rule: list_all2_induct) (auto simp: touched_actionId)

lemma touched_filter_status:
  "list_all2 (touched I) xs ys \<Longrightarrow> st \<noteq> SUCCESS \<Longrightarrow> st \<noteq> FAILED \<Longrightarrow>
   (\<And>x. x \<in> set xs \<Longrightarrow> actionId x \<in> I \<Longrightarrow> status x \<noteq> st) \<Longrightarrow>
   filter (\<lambda>a. status a = st) ys = filter (\<lambda>a. status a = st) xs"
  by (induction rule: list_all2_induct) (auto simp: touched_def split: if_splits)

lemma distinct_actionId_eq:
  "distinct (map actionId xs) \<Longrightarrow> x \<in> set xs \<Longrightarrow> y \<in> set xs \<Longrightarrow> actionId x = actionId y \<Longrightarrow> x = y"
  by (auto simp: distinct_map dest: inj_onD)

lemma executeActions_updatedActions: "updatedActions (executeActions e ids frc t h) = []"
  by (simp add: executeActions_def Let_def executeEach_updatedActions)

lemma executeEach_history:
  "history (executeEach e as s) = foldl (\<lambda>h a. snd (takeAction e a h)) (history s) as"
  by (induction as arbitrary: s) (simp_all add: executeOne_history)

lemma executeEach_status_at:
  assumes "distinct (map actionId batch)" and "i < length batch"
    and "r \<in> set (rows (table (executeEach e batch s)))"
    and "actionId r = actionId (batch ! i)"
  shows "status r = recorded (fst (takeAction e (batch ! i)
                             (history (executeEach e (take i batch) s))))"
proof -
  let ?a = "batch ! i"
  let ?si = "executeEach e (take i batch) s"
  let ?rest = "drop (Suc i) batch"
  have split: "batch = take i batch @ ?a # ?rest"
    using assms(2) by (rule id_take_nth_drop)
  have "executeEach e batch s = executeEach e (?a # ?rest) ?si"
    using executeEach_append[of e "take i batch" "?a # ?rest" s] split by simp
  then have fin: "executeEach e batch s = executeEach e ?rest (executeOne e ?a ?si)" by simp
  have notin: "actionId ?a \<notin> actionId ` set ?rest"
  proof -
    have "distinct (map actionId (take i batch @ ?a # ?rest))" using assms(1) split by simp
    then show ?thesis by auto
  qed
  have "list_all2 (touched (actionId ` set ?rest)) (rows (table (executeOne e ?a ?si)))
          (rows (table (executeEach e batch s)))"
    unfolding fin by (rule executeEach_touched)
  with assms(3) obtain x where x: "x \<in> set (rows (table (executeOne e ?a ?si)))"
      "touched (actionId ` set ?rest) x r"
    by (blast dest: touched_origin)
  from x(2) have idx: "actionId x = actionId ?a" using assms(4) by (simp add: touched_actionId)
  with x(2) notin have "r = x" by (simp add: touched_def)
  with x(1) idx show ?thesis by (auto simp: executeOne_rows)
qed

lemma distinct_ids_two_filters:
  assumes "distinct (map actionId xs)" and "\<And>x. \<not> (P x \<and> Q x)"
  shows "distinct (map actionId (filter P xs @ filter Q xs))"
proof -
  have inj: "inj_on actionId (set xs)" and d: "distinct xs"
    using assms(1) by (simp_all add: distinct_map)
  have "distinct (filter P xs @ filter Q xs)"
    using d assms(2) by auto
  moreover have "inj_on actionId (set (filter P xs @ filter Q xs))"
    by (rule inj_on_subset[OF inj]) auto
  ultimately show ?thesis unfolding distinct_map by blast
qed

lemma distinct_ids_mset:
  assumes m: "mset xs = mset ys" and d: "distinct (map actionId ys)"
  shows "distinct (map actionId xs)"
proof -
  from m have "mset (map actionId xs) = mset (map actionId ys)" by (simp only: mset_map)
  from mset_eq_imp_distinct_iff[OF this] d show ?thesis by blast
qed

lemma approved_sweep_keeps_queued:
  assumes d: "distinct (map actionId xs)"
    and A: "set A \<subseteq> {x \<in> set xs. status x = APPROVED}"
    and rel: "list_all2 (touched (actionId ` set A)) xs ys"
  shows "filter (\<lambda>a. status a = QUEUED) ys = filter (\<lambda>a. status a = QUEUED) xs"
proof -
  have notq: "status x \<noteq> QUEUED" if "x \<in> set xs" "actionId x \<in> actionId ` set A" for x
  proof -
    from that(2) A obtain y where y: "y \<in> set xs" "status y = APPROVED" "actionId x = actionId y"
      by auto
    with d that(1) have "x = y" by (blast intro: distinct_actionId_eq)
    with y show ?thesis by simp
  qed
  from rel notq show ?thesis by (intro touched_filter_status) simp_all
qed

section \<open>Approve and cancel\<close>

lemma Action_update_named_rows:
  assumes perm: "\<And>rs xs. mset (ord rs xs) = mset xs"
    and ne: "ids \<noteq> []" and sub: "set ids \<subseteq> actionId ` set (rows t)"
  shows "\<exists>updated t'. Action_update ord s ids t = (updated, t')
           \<and> updated \<noteq> []
           \<and> mset (rows t') =
               image_mset (\<lambda>a. if actionId a \<in> set ids then a\<lparr>status := s\<rparr> else a) (mset (rows t))
           \<and> mset updated = filter_mset (\<lambda>a. actionId a \<in> set ids) (mset (rows t'))"
proof -
  let ?f = "\<lambda>a. if actionId a \<in> set ids then a\<lparr>status := s\<rparr> else a"
  let ?rows' = "map ?f (rows t)"
  let ?updated = "ord ?rows' (filter (\<lambda>a. actionId a \<in> set ids) ?rows')"
  have eq: "Action_update ord s ids t = (?updated, t\<lparr>rows := ?rows'\<rparr>)"
    by (simp add: Action_update_def Let_def)
  have m0: "mset ?updated = mset (filter (\<lambda>a. actionId a \<in> set ids) ?rows')"
    by (rule perm)
  have m: "mset ?updated = filter_mset (\<lambda>a. actionId a \<in> set ids) (mset ?rows')"
    by (simp only: m0 mset_filter)
  from ne obtain i where i: "i \<in> set ids" by (cases ids) auto
  with sub obtain a where a: "a \<in> set (rows t)" "actionId a = i" by auto
  have "?f a \<in> set (filter (\<lambda>a. actionId a \<in> set ids) ?rows')"
    using a i by simp
  moreover have "set ?updated = set (filter (\<lambda>a. actionId a \<in> set ids) ?rows')"
    using m0 by (rule mset_eq_setD)
  ultimately have "?f a \<in> set ?updated" by (simp only:)
  then have nonempty: "?updated \<noteq> []" by auto
  show ?thesis
    apply (rule exI[of _ ?updated], rule exI[of _ "t\<lparr>rows := ?rows'\<rparr>"])
    apply (intro conjI)
       apply (rule eq)
      apply (rule nonempty)
     apply simp
    apply (simp add: m)
    done
qed

text \<open>
  C5 as stated does not hold: a canceled action returns to \<open>APPROVED\<close> through
  \<open>approveActions\<close>. Here action 1 of the example table is canceled and then approved,
  and the approved actions fetched afterwards are that action.
\<close>

theorem approve_resurrects_canceled_counterexample:
  "fst (cancelActions (scanOrder env0) [1] table0) = Inr [act1\<lparr>status := CANCELED\<rparr>]
   \<and> fst (approveActions (scanOrder env0) [1] (snd (cancelActions (scanOrder env0) [1] table0)))
       = Inr [act1\<lparr>status := APPROVED\<rparr>]
   \<and> Action_findAll (scanOrder env0) APPROVED
         (snd (approveActions (scanOrder env0) [1] (snd (cancelActions (scanOrder env0) [1] table0))))
       = [act1\<lparr>status := APPROVED\<rparr>]"
  by (simp add: approveActions_def cancelActions_def Action_update_def Action_findAll_def
      table0_def env0_def act1_def act2_def act3_def act4_def mkAction_def split_beta Let_def)

text \<open>
  C5, amended: when every given id names an existing action, \<open>approveActions\<close>
  succeeds, sets the status \<open>APPROVED\<close> on exactly the actions named, whatever their
  current status is (so a \<open>CANCELED\<close> action returns to \<open>APPROVED\<close>), leaves every
  other row as it is, and returns the rows it updated; \<open>cancelActions\<close> does the same
  with \<open>CANCELED\<close>, whatever the current status is. Neither looks at the current status
  of a row.
\<close>

theorem approve_cancel_by_id_only:
  assumes perm: "\<And>rs xs. mset (ord rs xs) = mset xs"
    and ne: "ids \<noteq> []" and sub: "set ids \<subseteq> actionId ` set (rows t)"
  shows "(\<exists>updated t'. approveActions ord ids t = (Inr updated, t')
           \<and> mset (rows t') =
               image_mset (\<lambda>a. if actionId a \<in> set ids then a\<lparr>status := APPROVED\<rparr> else a)
                 (mset (rows t))
           \<and> mset updated = filter_mset (\<lambda>a. actionId a \<in> set ids) (mset (rows t')))
       \<and> (\<exists>canceled t'. cancelActions ord ids t = (Inr canceled, t')
           \<and> mset (rows t') =
               image_mset (\<lambda>a. if actionId a \<in> set ids then a\<lparr>status := CANCELED\<rparr> else a)
                 (mset (rows t))
           \<and> mset canceled = filter_mset (\<lambda>a. actionId a \<in> set ids) (mset (rows t')))"
proof (rule conjI)
  from Action_update_named_rows[where ord = ord and s = APPROVED, OF perm ne sub]
  obtain updated t' where u: "Action_update ord APPROVED ids t = (updated, t')" "updated \<noteq> []"
    "mset (rows t') = image_mset (\<lambda>a. if actionId a \<in> set ids then a\<lparr>status := APPROVED\<rparr> else a)
                 (mset (rows t))"
    "mset updated = filter_mset (\<lambda>a. actionId a \<in> set ids) (mset (rows t'))"
    by blast
  have "approveActions ord ids t = (Inr updated, t')"
    using u(1,2) by (simp add: approveActions_def)
  with u(3,4) show "\<exists>updated t'. approveActions ord ids t = (Inr updated, t')
           \<and> mset (rows t') =
               image_mset (\<lambda>a. if actionId a \<in> set ids then a\<lparr>status := APPROVED\<rparr> else a)
                 (mset (rows t))
           \<and> mset updated = filter_mset (\<lambda>a. actionId a \<in> set ids) (mset (rows t'))"
    by blast
next
  from Action_update_named_rows[where ord = ord and s = CANCELED, OF perm ne sub]
  obtain canceled t' where u: "Action_update ord CANCELED ids t = (canceled, t')" "canceled \<noteq> []"
    "mset (rows t') = image_mset (\<lambda>a. if actionId a \<in> set ids then a\<lparr>status := CANCELED\<rparr> else a)
                 (mset (rows t))"
    "mset canceled = filter_mset (\<lambda>a. actionId a \<in> set ids) (mset (rows t'))"
    by blast
  have "cancelActions ord ids t = (Inr canceled, t')"
    using u(1,2) by (simp add: cancelActions_def)
  with u(3,4) show "\<exists>canceled t'. cancelActions ord ids t = (Inr canceled, t')
           \<and> mset (rows t') =
               image_mset (\<lambda>a. if actionId a \<in> set ids then a\<lparr>status := CANCELED\<rparr> else a)
                 (mset (rows t))
           \<and> mset canceled = filter_mset (\<lambda>a. actionId a \<in> set ids) (mset (rows t'))"
    by blast
qed

text \<open>
  On the table with action 1 canceled: approving it succeeds and the table then holds
  action 1 approved.
\<close>

theorem approve_cancel_by_id_only_witness:
  "[1] \<noteq> ([] :: int list)
   \<and> set [1] \<subseteq> actionId ` set (rows canceled_table)
   \<and> (\<exists>updated t'. approveActions (scanOrder env0) [1] canceled_table = (Inr updated, t')
         \<and> mset (rows t') = {#act1\<lparr>status := APPROVED\<rparr>, act2#}
         \<and> mset updated = {#act1\<lparr>status := APPROVED\<rparr>#})"
proof -
  have perm: "mset (scanOrder env0 rs xs) = mset xs" for rs xs
    by (simp add: env0_def)
  have ne: "[1] \<noteq> ([] :: int list)" by simp
  have sub: "set [1] \<subseteq> actionId ` set (rows canceled_table)"
    by (simp add: canceled_table_def act1_def mkAction_def)
  have ids: "actionId act1 = 1" "actionId act2 = 2"
    by (simp_all add: act1_def act2_def mkAction_def)
  from approve_cancel_by_id_only[where ord = "scanOrder env0", OF perm ne sub]
  obtain updated t' where u: "approveActions (scanOrder env0) [1] canceled_table = (Inr updated, t')"
    "mset (rows t') =
       image_mset (\<lambda>a. if actionId a \<in> set [1] then a\<lparr>status := APPROVED\<rparr> else a)
         (mset (rows canceled_table))"
    "mset updated = filter_mset (\<lambda>a. actionId a \<in> set [1]) (mset (rows t'))"
    by blast
  have r: "mset (rows t') = {#act1\<lparr>status := APPROVED\<rparr>, act2#}"
    by (simp add: u(2) canceled_table_def ids)
  have "mset updated = {#act1\<lparr>status := APPROVED\<rparr>#}"
    by (simp add: u(3) r ids)
  with u(1) r ne sub show ?thesis by blast
qed

section \<open>The Action Execution Coordinator: what is returned, taken and recorded\<close>

text \<open>
  C1: the list returned by \<open>executeActions\<close> should hold every record updated during the
  call. The code never adds to \<open>updatedActions\<close>: on the table with action 1 approved
  and action 2 queued, \<open>executeActions([2], false)\<close> marks action 1 \<open>SUCCESS\<close> and
  action 2 \<open>FAILED\<close> and returns the empty list.
\<close>

theorem executeActions_returns_nothing_at_failing_input:
  "map status (rows (table (executeActions env0 [2] False mixed_table []))) = [SUCCESS, FAILED]
   \<and> updatedActions (executeActions env0 [2] False mixed_table []) = []"
  by (simp add: executeActions_def Action_findAll_def mixed_table_def executeOne_def
      takeAction_def allocate_def allocate_try_def unallocate_def Action_update_def
      env0_def alloc1_def act1_def act2_def mkAction_def Let_def)

text \<open>
  C2: on a table whose ids are distinct (the id is the primary key), and whatever the
  order in which the store returns rows, \<open>executeActions\<close> dispatches exactly these
  actions: first, unless \<open>force\<close> is set, the actions that are \<open>APPROVED\<close> at the
  call (none when \<open>force\<close> is set); then, in both cases, the actions that are \<open>QUEUED\<close>
  and whose id is among the given ids. The calls made on the collaborators are those of
  \<open>takeAction\<close> on these actions, one after the other; the row of each dispatched
  action gets the status of its own outcome, and every other row is left as it is. So
  with \<open>force\<close> set an \<open>APPROVED\<close> action is never dispatched, whether its id is given
  or not, and it stays in the table as it was.
\<close>

theorem executeActions_takes_exactly:
  assumes d: "distinct (map actionId (rows t))"
    and perm: "\<And>rs xs. mset (scanOrder e rs xs) = mset xs"
  shows "(\<exists>approved queued.
            taken (executeActions e ids frc t h) = approved @ queued
          \<and> mset approved =
              (if frc then {#} else mset (filter (\<lambda>a. status a = APPROVED) (rows t)))
          \<and> mset queued =
              mset (filter (\<lambda>a. status a = QUEUED \<and> actionId a \<in> set ids) (rows t))
          \<and> history (executeActions e ids frc t h) =
              foldl (\<lambda>h a. snd (takeAction e a h)) h (approved @ queued)
          \<and> list_all2 (touched (actionId ` set (approved @ queued))) (rows t)
                (rows (table (executeActions e ids frc t h)))
          \<and> (\<forall>j<length (approved @ queued).
                \<forall>r\<in>set (rows (table (executeActions e ids frc t h))).
                  actionId r = actionId ((approved @ queued) ! j) \<longrightarrow>
                  status r = recorded (fst (takeAction e ((approved @ queued) ! j)
                       (foldl (\<lambda>h a. snd (takeAction e a h)) h (take j (approved @ queued)))))))
         \<and> (\<forall>a\<in>set (rows t). status a = APPROVED \<longrightarrow>
               a \<notin> set (taken (executeActions e ids True t h))
               \<and> a \<in> set (rows (table (executeActions e ids True t h))))"
proof -
  let ?s0 = "\<lparr> table = t, history = h, updatedActions = [], taken = [] \<rparr>"
  let ?step = "\<lambda>h a. snd (takeAction e a h)"
  let ?qi = "\<lambda>a. status a = QUEUED \<and> actionId a \<in> set ids"
  have main: "\<exists>A Q. executeActions e ids f t h = executeEach e (A @ Q) ?s0
          \<and> mset A = (if f then {#} else mset (filter (\<lambda>a. status a = APPROVED) (rows t)))
          \<and> mset Q = mset (filter ?qi (rows t))
          \<and> distinct (map actionId (A @ Q))" for f
  proof -
    define A where "A = (if f then [] else Action_findAll (scanOrder e) APPROVED t)"
    define s1 where "s1 = executeEach e A ?s0"
    define Q where "Q = filter (\<lambda>a. actionId a \<in> set ids)
                          (Action_findAll (scanOrder e) QUEUED (table s1))"
    have ex: "executeActions e ids f t h = executeEach e (A @ Q) ?s0"
      by (simp add: executeActions_def Let_def executeEach_append A_def s1_def Q_def)
    have mA: "mset A = (if f then {#} else mset (filter (\<lambda>a. status a = APPROVED) (rows t)))"
      by (simp add: A_def Action_findAll_def perm)
    have setA: "set A \<subseteq> {x \<in> set (rows t). status x = APPROVED}"
    proof (cases f)
      case True
      then show ?thesis by (simp add: A_def)
    next
      case False
      with mA have "mset A = mset (filter (\<lambda>a. status a = APPROVED) (rows t))" by simp
      then have "set A = set (filter (\<lambda>a. status a = APPROVED) (rows t))"
        by (rule mset_eq_setD)
      then show ?thesis by auto
    qed
    have rel1: "list_all2 (touched (actionId ` set A)) (rows t) (rows (table s1))"
      using executeEach_touched[of A ?s0 e] by (simp add: s1_def)
    have fq: "filter (\<lambda>a. status a = QUEUED) (rows (table s1))
                = filter (\<lambda>a. status a = QUEUED) (rows t)"
      using d setA rel1 by (rule approved_sweep_keeps_queued)
    have "mset Q = filter_mset (\<lambda>a. actionId a \<in> set ids)
                     (mset (filter (\<lambda>a. status a = QUEUED) (rows (table s1))))"
      by (simp add: Q_def Action_findAll_def perm)
    also have "\<dots> = mset (filter (\<lambda>a. actionId a \<in> set ids)
                          (filter (\<lambda>a. status a = QUEUED) (rows t)))"
      by (simp only: fq mset_filter)
    also have "\<dots> = mset (filter ?qi (rows t))"
      by (simp only: filter_filter)
    finally have mQ: "mset Q = mset (filter ?qi (rows t))" .
    have dist: "distinct (map actionId (A @ Q))"
    proof (cases f)
      case True
      with mA have "A = []" by simp
      moreover have "distinct (map actionId (filter ?qi (rows t)))"
        using d by (rule distinct_map_filter)
      ultimately show ?thesis using distinct_ids_mset[OF mQ] by simp
    next
      case False
      have "mset (A @ Q) = mset (filter (\<lambda>a. status a = APPROVED) (rows t) @ filter ?qi (rows t))"
        using mA mQ False by simp
      moreover have "distinct (map actionId
          (filter (\<lambda>a. status a = APPROVED) (rows t) @ filter ?qi (rows t)))"
        using d by (rule distinct_ids_two_filters) simp
      ultimately show ?thesis by (rule distinct_ids_mset)
    qed
    show ?thesis
      apply (rule exI[of _ A], rule exI[of _ Q])
      apply (intro conjI)
         apply (rule ex)
        apply (rule mA)
       apply (rule mQ)
      apply (rule dist)
      done
  qed
  have first: "\<exists>approved queued.
            taken (executeActions e ids frc t h) = approved @ queued
          \<and> mset approved =
              (if frc then {#} else mset (filter (\<lambda>a. status a = APPROVED) (rows t)))
          \<and> mset queued = mset (filter ?qi (rows t))
          \<and> history (executeActions e ids frc t h) = foldl ?step h (approved @ queued)
          \<and> list_all2 (touched (actionId ` set (approved @ queued))) (rows t)
                (rows (table (executeActions e ids frc t h)))
          \<and> (\<forall>j<length (approved @ queued).
                \<forall>r\<in>set (rows (table (executeActions e ids frc t h))).
                  actionId r = actionId ((approved @ queued) ! j) \<longrightarrow>
                  status r = recorded (fst (takeAction e ((approved @ queued) ! j)
                       (foldl ?step h (take j (approved @ queued))))))"
  proof -
    from main[of frc] obtain A Q where
      ex: "executeActions e ids frc t h = executeEach e (A @ Q) ?s0"
      and mA: "mset A = (if frc then {#} else mset (filter (\<lambda>a. status a = APPROVED) (rows t)))"
      and mQ: "mset Q = mset (filter ?qi (rows t))"
      and dist: "distinct (map actionId (A @ Q))"
      by blast
    have tk: "taken (executeActions e ids frc t h) = A @ Q"
      by (simp add: ex executeEach_taken)
    have hs: "history (executeActions e ids frc t h) = foldl ?step h (A @ Q)"
      by (simp add: ex executeEach_history)
    have tc: "list_all2 (touched (actionId ` set (A @ Q))) (rows t)
                (rows (table (executeActions e ids frc t h)))"
      using executeEach_touched[of "A @ Q" ?s0 e] by (simp add: ex)
    have st: "status r = recorded (fst (takeAction e ((A @ Q) ! j) (foldl ?step h (take j (A @ Q)))))"
      if "j < length (A @ Q)" "r \<in> set (rows (table (executeActions e ids frc t h)))"
         "actionId r = actionId ((A @ Q) ! j)" for j r
      using executeEach_status_at[OF dist that(1), of r e ?s0] that(2,3)
      by (simp add: ex executeEach_history)
    show ?thesis
      apply (rule exI[of _ A], rule exI[of _ Q])
      apply (intro conjI allI impI ballI)
           apply (rule tk)
          apply (rule mA)
         apply (rule mQ)
        apply (rule hs)
       apply (rule tc)
      apply (erule (2) st)
      done
  qed
  have second: "a \<notin> set (taken (executeActions e ids True t h))
               \<and> a \<in> set (rows (table (executeActions e ids True t h)))"
    if a: "a \<in> set (rows t)" "status a = APPROVED" for a
  proof -
    from main[of True] obtain A Q where
      ex: "executeActions e ids True t h = executeEach e (A @ Q) ?s0"
      and mA: "mset A = (if True then {#} else mset (filter (\<lambda>a. status a = APPROVED) (rows t)))"
      and mQ: "mset Q = mset (filter ?qi (rows t))"
      by blast
    from mA have A: "A = []" by simp
    from mQ have sQ: "set Q = set (filter ?qi (rows t))" by (rule mset_eq_setD)
    have n1: "a \<notin> set Q" using a(2) sQ by auto
    have "actionId a \<notin> actionId ` set Q"
    proof
      assume "actionId a \<in> actionId ` set Q"
      then obtain y where y: "y \<in> set (rows t)" "status y = QUEUED" "actionId a = actionId y"
        using sQ by auto
      with d a(1) have "a = y" by (blast intro: distinct_actionId_eq)
      with y a(2) show False by simp
    qed
    moreover have "list_all2 (touched (actionId ` set Q)) (rows t)
                     (rows (table (executeActions e ids True t h)))"
      using executeEach_touched[of Q ?s0 e] by (simp add: ex A)
    ultimately have "a \<in> set (rows (table (executeActions e ids True t h)))"
      using a(1) by (blast intro: touched_untouched_mem)
    with n1 show ?thesis by (simp add: ex A executeEach_taken)
  qed
  show ?thesis
    apply (intro conjI ballI impI)
      apply (rule first)
     apply (erule (1) second[THEN conjunct1])
    apply (erule (1) second[THEN conjunct2])
    done
qed

text \<open>
  On the table with action 1 approved and action 2 queued, with \<open>force\<close> and both ids:
  only action 2 is dispatched, and the only call made is the one of its \<open>unallocate\<close>.
\<close>

theorem executeActions_takes_exactly_witness:
  "distinct (map actionId (rows mixed_table))
   \<and> taken (executeActions env0 [1, 2] True mixed_table []) = [act2]
   \<and> history (executeActions env0 [1, 2] True mixed_table [])
       = [NetworkMonitor_allocation (Some ''0xdead'')]
   \<and> act1\<lparr>status := APPROVED\<rparr> \<notin> set (taken (executeActions env0 [1, 2] True mixed_table []))
   \<and> act1\<lparr>status := APPROVED\<rparr> \<in> set (rows (table (executeActions env0 [1, 2] True mixed_table [])))"
proof -
  let ?s = "executeActions env0 [1, 2] True mixed_table []"
  have d: "distinct (map actionId (rows mixed_table))"
    by (simp add: mixed_table_def act1_def act2_def mkAction_def)
  have perm: "mset (scanOrder env0 rs xs) = mset xs" for rs xs
    by (simp add: env0_def)
  note main = executeActions_takes_exactly[OF d perm, of "[1, 2]" True "[]"]
  have q: "filter (\<lambda>a. status a = QUEUED \<and> actionId a \<in> set [1, 2]) (rows mixed_table) = [act2]"
    by (simp add: mixed_table_def act1_def act2_def mkAction_def)
  from main obtain approved queued where
    tk: "taken ?s = approved @ queued"
    and mA: "mset approved = (if True then {#} else mset (filter (\<lambda>a. status a = APPROVED) (rows mixed_table)))"
    and mQ: "mset queued = mset (filter (\<lambda>a. status a = QUEUED \<and> actionId a \<in> set [1, 2]) (rows mixed_table))"
    and hs: "history ?s = foldl (\<lambda>h a. snd (takeAction env0 a h)) [] (approved @ queued)"
    by blast
  from mA have A: "approved = []" by simp
  from mQ have Q: "queued = [act2]" by (simp only: q) simp
  have tk': "taken ?s = [act2]" by (simp add: tk A Q)
  have "history ?s = snd (takeAction env0 act2 [])" by (simp add: hs A Q)
  also have "\<dots> = [NetworkMonitor_allocation (Some ''0xdead'')]"
    by (simp add: takeAction_def unallocate_def act2_def mkAction_def env0_def Let_def)
  finally have hs': "history ?s = [NetworkMonitor_allocation (Some ''0xdead'')]" .
  have m: "act1\<lparr>status := APPROVED\<rparr> \<in> set (rows mixed_table)"
    by (simp add: mixed_table_def)
  have st: "status (act1\<lparr>status := APPROVED\<rparr>) = APPROVED" by simp
  from main m st have keep: "act1\<lparr>status := APPROVED\<rparr> \<notin> set (taken ?s)
      \<and> act1\<lparr>status := APPROVED\<rparr> \<in> set (rows (table ?s))"
    by blast
  show ?thesis
    apply (intro conjI)
        apply (rule d)
       apply (rule tk')
      apply (rule hs')
     apply (rule keep[THEN conjunct1])
    apply (rule keep[THEN conjunct2])
    done
qed

text \<open>
  C3: the loop of \<open>executeActions\<close> over a batch with distinct ids calls \<open>takeAction\<close>
  on every action of the batch, whatever the outcome of the actions before it, and the
  status recorded for the \<open>i\<close>-th action is the outcome of its own dispatch (at the
  history reached after the \<open>i\<close> actions before it): \<open>FAILED\<close> if it threw,
  \<open>SUCCESS\<close> otherwise. No row is added or removed.
\<close>

theorem executeEach_records_each_outcome:
  assumes "distinct (map actionId batch)" and "i < length batch"
  shows "taken (executeEach e batch s) = taken s @ batch
         \<and> map actionId (rows (table (executeEach e batch s))) = map actionId (rows (table s))
         \<and> (\<forall>r\<in>set (rows (table (executeEach e batch s))).
               actionId r = actionId (batch ! i) \<longrightarrow>
               status r = recorded (fst (takeAction e (batch ! i)
                                     (history (executeEach e (take i batch) s)))))"
proof (intro conjI ballI impI)
  show "taken (executeEach e batch s) = taken s @ batch" by (rule executeEach_taken)
  show "map actionId (rows (table (executeEach e batch s))) = map actionId (rows (table s))"
    using executeEach_touched by (rule touched_ids)
next
  fix r assume r: "r \<in> set (rows (table (executeEach e batch s)))" "actionId r = actionId (batch ! i)"
  let ?a = "batch ! i"
  let ?si = "executeEach e (take i batch) s"
  let ?rest = "drop (Suc i) batch"
  have split: "batch = take i batch @ ?a # ?rest"
    using assms(2) by (rule id_take_nth_drop)
  have "executeEach e batch s = executeEach e (?a # ?rest) ?si"
    using executeEach_append[of e "take i batch" "?a # ?rest" s] split by simp
  then have fin: "executeEach e batch s = executeEach e ?rest (executeOne e ?a ?si)" by simp
  have notin: "actionId ?a \<notin> actionId ` set ?rest"
  proof -
    have "distinct (map actionId (take i batch @ ?a # ?rest))" using assms(1) split by simp
    then show ?thesis by auto
  qed
  have "list_all2 (touched (actionId ` set ?rest)) (rows (table (executeOne e ?a ?si)))
          (rows (table (executeEach e batch s)))"
    unfolding fin by (rule executeEach_touched)
  with r(1) obtain x where x: "x \<in> set (rows (table (executeOne e ?a ?si)))"
      "touched (actionId ` set ?rest) x r"
    by (blast dest: touched_origin)
  from x(2) have "actionId x = actionId ?a" using r(2) by (simp add: touched_actionId)
  with x(2) notin have "r = x" by (simp add: touched_def)
  with x(1) \<open>actionId x = actionId ?a\<close>
  show "status r = recorded (fst (takeAction e ?a (history ?si)))"
    by (auto simp: executeOne_rows)
qed

text \<open>
  The four example actions as one batch: the second one throws (its allocation is unknown
  to the network monitor) and is recorded as \<open>FAILED\<close>, and the two after it are taken
  all the same.
\<close>

theorem executeEach_records_each_outcome_witness:
  "distinct (map actionId [act1, act2, act3, act4])
   \<and> (1::nat) < length [act1, act2, act3, act4]
   \<and> taken (executeEach env0 [act1, act2, act3, act4] exec0) = [act1, act2, act3, act4]
   \<and> map actionId (rows (table (executeEach env0 [act1, act2, act3, act4] exec0))) = [1, 2, 3, 4]
   \<and> recorded (fst (takeAction env0 act2 (history (executeEach env0 [act1] exec0)))) = FAILED
   \<and> (\<exists>r. r \<in> set (rows (table (executeEach env0 [act1, act2, act3, act4] exec0)))
         \<and> actionId r = 2 \<and> status r = FAILED)"
proof -
  let ?batch = "[act1, act2, act3, act4]"
  let ?rows = "rows (table (executeEach env0 ?batch exec0))"
  have d: "distinct (map actionId ?batch)"
    by (simp add: act1_def act2_def act3_def act4_def mkAction_def)
  have i: "(1::nat) < length ?batch" by simp
  note main = executeEach_records_each_outcome[OF d i, of env0 exec0]
  have tk: "taken (executeEach env0 ?batch exec0) = ?batch"
    using main by (simp add: exec0_def)
  have ids: "map actionId (rows (table exec0)) = [1, 2, 3, 4]"
    by (simp add: exec0_def table0_def act1_def act2_def act3_def act4_def mkAction_def)
  have f: "recorded (fst (takeAction env0 act2 (history (executeEach env0 [act1] exec0)))) = FAILED"
    by (simp add: takeAction_def unallocate_def act2_def mkAction_def env0_def recorded_def Let_def)
  from main ids have ids': "map actionId ?rows = [1, 2, 3, 4]"
    by simp
  have len: "length ?rows = 4"
    using arg_cong[where f = length, OF ids'] by simp
  have mem: "?rows ! 1 \<in> set ?rows" using len by simp
  have "map actionId ?rows ! 1 = actionId (?rows ! 1)" using len by (simp only: nth_map)
  with ids' have id2: "actionId (?rows ! 1) = 2" by simp
  have b: "actionId (?batch ! 1) = 2" by (simp add: act2_def mkAction_def)
  have t: "take 1 ?batch = [act1]" by simp
  have nb: "?batch ! 1 = act2" by simp
  from main have "\<forall>r\<in>set ?rows. actionId r = actionId (?batch ! 1) \<longrightarrow>
       status r = recorded (fst (takeAction env0 (?batch ! 1) (history (executeEach env0 (take 1 ?batch) exec0))))"
    by blast
  with mem id2 b have "status (?rows ! 1) = recorded (fst (takeAction env0 (?batch ! 1) (history (executeEach env0 (take 1 ?batch) exec0))))"
    by metis
  also have "\<dots> = FAILED" by (simp only: t nb f)
  finally have st: "status (?rows ! 1) = FAILED" .
  from mem id2 st have ex: "\<exists>r. r \<in> set ?rows \<and> actionId r = 2 \<and> status r = FAILED" by blast
  show ?thesis
    apply (intro conjI)
    apply (rule d)
    apply (rule i)
    apply (rule tk)
    apply (rule ids')
    apply (rule f)
    apply (rule ex)
    done
qed

section \<open>Action dispatch\<close>

text \<open>
  C4 as stated does not hold. For a type outside the four, \<open>takeAction\<close> has no final
  \<open>else\<close>: the dispatch returns \<open>undefined\<close> without any call and without throwing, and
  \<open>executeActions\<close> records \<open>SUCCESS\<close>. And an action of one of the four types is not
  always dispatched to a call: for an \<open>ALLOCATE\<close> action with a null deployment id the
  argument cannot be built, and the dispatch throws before any call.
\<close>

theorem takeAction_unmapped_counterexample:
  "takeAction env0 (mkAction 9 (Unmapped ''stake'') None (Some ''0xa1'') (Some ''10000'') APPROVED) []
     = (Inr Undefined, [])
   \<and> map status (rows (table (executeActions env0 [] False
        \<lparr> rows = [mkAction 9 (Unmapped ''stake'') None (Some ''0xa1'') (Some ''10000'') APPROVED],
          nextId = 10 \<rparr> []))) = [SUCCESS]
   \<and> takeAction env0 (mkAction 8 ALLOCATE None None (Some ''10000'') APPROVED) []
     = (Inl (Error InvalidDeploymentID), [])"
  by (simp add: takeAction_def mkAction_def executeActions_def Action_findAll_def executeOne_def
      Action_update_def env0_def Let_def)

text \<open>
  C4, amended: an \<open>UNALLOCATE\<close> action is dispatched to \<open>unallocate\<close> and a
  \<open>COLLECT\<close> action to \<open>collect\<close>; an \<open>ALLOCATE\<close> action is dispatched to
  \<open>allocate\<close> when its deployment id and its amount parse, a \<open>REALLOCATE\<close> action to
  \<open>reallocate\<close> when its amount parses, and when they do not parse the dispatch fails
  without any call (\<open>force\<close> is false when null). Dispatching an action whose type is
  none of the four, which the type \<open>ActionType\<close> excludes, is not a failure:
  \<open>takeAction\<close> returns \<open>undefined\<close> and calls nothing, and the loop of
  \<open>executeActions\<close> records \<open>SUCCESS\<close> for the action.
\<close>

theorem takeAction_dispatch:
  "(actionType a = ALLOCATE \<longrightarrow>
      (\<forall>deployment amt. SubgraphDeploymentID_new e (deploymentID a) = Some deployment \<longrightarrow>
          BigNumber_from e (amount a) = Some amt \<longrightarrow>
          takeAction e a h = allocate e deployment amt None h)
      \<and> (SubgraphDeploymentID_new e (deploymentID a) = None \<or> BigNumber_from e (amount a) = None \<longrightarrow>
          isl (fst (takeAction e a h)) \<and> snd (takeAction e a h) = h))
   \<and> (actionType a = UNALLOCATE \<longrightarrow>
      takeAction e a h = unallocate e (allocationID a) (poi a) (force a = Some True) h)
   \<and> (actionType a = REALLOCATE \<longrightarrow>
      (\<forall>amt. BigNumber_from e (amount a) = Some amt \<longrightarrow>
          takeAction e a h = reallocate e (allocationID a) (poi a) amt (force a = Some True) h)
      \<and> (BigNumber_from e (amount a) = None \<longrightarrow>
          isl (fst (takeAction e a h)) \<and> snd (takeAction e a h) = h))
   \<and> (actionType a = COLLECT \<longrightarrow> takeAction e a h = collect e (allocationID a) h)
   \<and> (\<forall>x. actionType a = Unmapped x \<longrightarrow>
        takeAction e a h = (Inr Undefined, h)
        \<and> history (executeOne e a s) = history s
        \<and> rows (table (executeOne e a s)) =
            map (\<lambda>r. if actionId r = actionId a then r\<lparr>status := SUCCESS\<rparr> else r)
              (rows (table s)))"
proof -
  have b: "(case force a of None \<Rightarrow> False | Some f \<Rightarrow> f) = (force a = Some True)"
    by (cases "force a") auto
  have u: "takeAction e a hh = (Inr Undefined, hh)" if "actionType a = Unmapped x" for x hh
    using that by (simp add: takeAction_def)
  have one: "history (executeOne e a s) = history s
        \<and> rows (table (executeOne e a s)) =
            map (\<lambda>r. if actionId r = actionId a then r\<lparr>status := SUCCESS\<rparr> else r)
              (rows (table s))" if "actionType a = Unmapped x" for x
    using u[OF that, of "history s"] by (simp add: executeOne_history executeOne_rows recorded_def)
  have alloc: "isl (fst (takeAction e a h)) \<and> snd (takeAction e a h) = h"
    if "actionType a = ALLOCATE"
       "SubgraphDeploymentID_new e (deploymentID a) = None \<or> BigNumber_from e (amount a) = None"
    using that by (auto simp: takeAction_def split: option.splits)
  show ?thesis
    apply (intro conjI impI allI)
            apply (simp add: takeAction_def)
           apply (erule (1) alloc[THEN conjunct1])
          apply (erule (1) alloc[THEN conjunct2])
         apply (simp add: takeAction_def b)
        apply (simp add: takeAction_def b)
       apply (simp add: takeAction_def)
      apply (simp add: takeAction_def)
     apply (simp add: takeAction_def)
    apply (erule u)
    apply (erule one[THEN conjunct1])
    apply (erule one[THEN conjunct2])
    done
qed

text \<open>
  The four example actions, action 1 without its deployment id, and action 4 with a
  type outside the four.
\<close>

theorem takeAction_dispatch_witness:
  "takeAction env0 act1 [] = allocate env0 ''QmB'' 10000 None []
   \<and> takeAction env0 act2 [] = unallocate env0 (Some ''0xdead'') None False []
   \<and> takeAction env0 act3 [] = reallocate env0 (Some ''0xa1'') None 27000 False []
   \<and> takeAction env0 act4 [] = collect env0 (Some ''0xa1'') []
   \<and> takeAction env0 (act1\<lparr>deploymentID := None\<rparr>) [] = (Inl (Error InvalidDeploymentID), [])
   \<and> takeAction env0 (act4\<lparr>actionType := Unmapped ''stake''\<rparr>) [] = (Inr Undefined, [])
   \<and> map status (rows (table (executeOne env0 (act4\<lparr>actionType := Unmapped ''stake''\<rparr>) exec0)))
       = [QUEUED, QUEUED, QUEUED, SUCCESS]"
proof -
  let ?u = "act4\<lparr>actionType := Unmapped ''stake''\<rparr>"
  let ?n = "act1\<lparr>deploymentID := None\<rparr>"
  have p1: "SubgraphDeploymentID_new env0 (deploymentID act1) = Some ''QmB''"
    "BigNumber_from env0 (amount act1) = Some 10000"
    "BigNumber_from env0 (amount act3) = Some 27000"
    "SubgraphDeploymentID_new env0 None = None"
    "amount ?n = Some ''10000''"
    by (simp_all add: env0_def act1_def act3_def mkAction_def)
  have t: "actionType act1 = ALLOCATE" "actionType act2 = UNALLOCATE"
    "actionType act3 = REALLOCATE" "actionType act4 = COLLECT"
    "actionType ?n = ALLOCATE" "actionType ?u = Unmapped ''stake''"
    by (simp_all add: act1_def act2_def act3_def act4_def mkAction_def)
  have v: "allocationID act2 = Some ''0xdead''" "poi act2 = None" "force act2 = Some False"
    "allocationID act3 = Some ''0xa1''" "poi act3 = None" "force act3 = Some False"
    "allocationID act4 = Some ''0xa1''"
    by (simp_all add: act2_def act3_def act4_def mkAction_def)
  have c1: "takeAction env0 act1 [] = allocate env0 ''QmB'' 10000 None []"
    using takeAction_dispatch[of act1 env0 "[]" exec0] by (simp add: p1 t)
  have c2: "takeAction env0 act2 [] = unallocate env0 (Some ''0xdead'') None False []"
    using takeAction_dispatch[of act2 env0 "[]" exec0] by (simp add: t v)
  have c3: "takeAction env0 act3 [] = reallocate env0 (Some ''0xa1'') None 27000 False []"
    using takeAction_dispatch[of act3 env0 "[]" exec0] by (simp add: p1 t v)
  have c4: "takeAction env0 act4 [] = collect env0 (Some ''0xa1'') []"
    using takeAction_dispatch[of act4 env0 "[]" exec0] by (simp add: t v)
  from takeAction_dispatch[of ?n env0 "[]" exec0]
  have "isl (fst (takeAction env0 ?n [])) \<and> snd (takeAction env0 ?n []) = []"
    by (simp add: p1 t)
  moreover have "fst (takeAction env0 ?n []) = Inl (Error InvalidDeploymentID)"
    by (simp add: takeAction_def p1 t)
  ultimately have c5: "takeAction env0 ?n [] = (Inl (Error InvalidDeploymentID), [])"
    by (simp add: prod_eq_iff)
  from takeAction_dispatch[of ?u env0 "[]" exec0]
  have c6: "takeAction env0 ?u [] = (Inr Undefined, [])"
    and c7: "rows (table (executeOne env0 ?u exec0)) =
            map (\<lambda>r. if actionId r = actionId ?u then r\<lparr>status := SUCCESS\<rparr> else r)
              (rows (table exec0))"
    by (simp_all add: t)
  have c8: "map status (rows (table (executeOne env0 ?u exec0))) = [QUEUED, QUEUED, QUEUED, SUCCESS]"
    unfolding c7
    by (simp add: exec0_def table0_def act1_def act2_def act3_def act4_def mkAction_def)
  show ?thesis
    apply (intro conjI)
          apply (rule c1)
         apply (rule c2)
        apply (rule c3)
       apply (rule c4)
      apply (rule c5)
     apply (rule c6)
    apply (rule c8)
    done
qed

section \<open>The Allocation Lifecycle Manager: preconditions\<close>

text \<open>
  C6: when the amount is zero or negative, or the network monitor reports an active
  allocation on the deployment, \<open>allocate\<close> throws having only read the active
  allocations from the network monitor: no chain call (read or transaction) and no
  mutation (subgraph deployment, receipt collector, indexing rules) is among its
  events.
\<close>

theorem allocate_rejects_before_any_chain_call:
  assumes "amt \<le> 0 \<or> (\<exists>al \<in> set (networkMonitor_allocations e (h @ [NetworkMonitor_allocations])).
                          subgraphDeployment al = deployment)"
  shows "isl (fst (allocate e deployment amt indexNode h))
         \<and> snd (allocate e deployment amt indexNode h) = h @ [NetworkMonitor_allocations]
         \<and> filter is_chain_call (snd (allocate e deployment amt indexNode h)) = filter is_chain_call h
         \<and> filter is_mutation (snd (allocate e deployment amt indexNode h)) = filter is_mutation h"
proof (cases "find (\<lambda>allocation. subgraphDeployment allocation = deployment)
                (networkMonitor_allocations e (h @ [NetworkMonitor_allocations]))")
  case (Some al)
  then show ?thesis by (simp add: allocate_def Let_def)
next
  case None
  then have "amt \<le> 0" using assms by (auto simp: find_None_iff)
  with None show ?thesis by (simp add: allocate_def Let_def)
qed

theorem allocate_rejects_before_any_chain_call_witness:
  "snd (allocate env0 ''QmB'' (- 5) None []) = [NetworkMonitor_allocations]
   \<and> isl (fst (allocate env0 ''QmB'' 0 None []))
   \<and> snd (allocate env0 ''QmA'' 10000 None []) = [NetworkMonitor_allocations]
   \<and> isl (fst (allocate env0 ''QmA'' 10000 None []))"
proof -
  have a: "(- 5::int) \<le> 0 \<or> (\<exists>al \<in> set (networkMonitor_allocations env0 ([] @ [NetworkMonitor_allocations])).
                          subgraphDeployment al = ''QmB'')" by simp
  have b: "(0::int) \<le> 0 \<or> (\<exists>al \<in> set (networkMonitor_allocations env0 ([] @ [NetworkMonitor_allocations])).
                          subgraphDeployment al = ''QmB'')" by simp
  have c: "(10000::int) \<le> 0 \<or> (\<exists>al \<in> set (networkMonitor_allocations env0 ([] @ [NetworkMonitor_allocations])).
                          subgraphDeployment al = ''QmA'')" by (simp add: env0_def alloc1_def)
  from allocate_rejects_before_any_chain_call[OF a, of None]
       allocate_rejects_before_any_chain_call[OF b, of None]
       allocate_rejects_before_any_chain_call[OF c, of None]
  show ?thesis by simp
qed

text \<open>
  C8: when the allocation read from the network monitor was created in the epoch that
  the epoch manager reports, \<open>unallocate\<close> throws (wrapped as \<open>IE015\<close>) right after
  reading the epoch: no transaction is handed to the transaction manager.
\<close>

theorem unallocate_rejects_creation_epoch:
  assumes "networkMonitor_allocation e (h @ [NetworkMonitor_allocation allocID]) = Some allocation"
    and "createdAtEpoch allocation
           = currentEpoch e (h @ [NetworkMonitor_allocation allocID, EpochManager_currentEpoch])"
  shows "unallocate e allocID upoi frc h =
           (Inl (IndexerError IE015
                  (Error (CannotCloseUntilEpoch (allocId allocation) (createdAtEpoch allocation + 1)))),
            h @ [NetworkMonitor_allocation allocID, EpochManager_currentEpoch])
         \<and> filter is_transaction (snd (unallocate e allocID upoi frc h)) = filter is_transaction h"
  using assms by (simp add: unallocate_def unallocate_try_def Let_def)

theorem unallocate_rejects_creation_epoch_witness:
  "unallocate (env0\<lparr>currentEpoch := \<lambda>h. 1\<rparr>) (Some ''0xa1'') None False [] =
     (Inl (IndexerError IE015 (Error (CannotCloseUntilEpoch ''0xa1'' 2))),
      [NetworkMonitor_allocation (Some ''0xa1''), EpochManager_currentEpoch])"
proof -
  let ?e = "env0\<lparr>currentEpoch := \<lambda>h. 1\<rparr>"
  have a: "networkMonitor_allocation ?e ([] @ [NetworkMonitor_allocation (Some ''0xa1'')]) = Some alloc1"
    by (simp add: env0_def)
  have b: "createdAtEpoch alloc1
           = currentEpoch ?e ([] @ [NetworkMonitor_allocation (Some ''0xa1''), EpochManager_currentEpoch])"
    by (simp add: alloc1_def)
  from unallocate_rejects_creation_epoch[OF a b, of None False]
  show ?thesis by (simp add: alloc1_def)
qed

text \<open>
  The capacity check is the only place of \<open>reallocate_submit\<close> that throws \<open>IE013\<close>.
\<close>

lemma reallocate_submit_IE013:
  "(\<exists>m. fst (reallocate_submit e allocation active p epoch amt h4) = Inl (IndexerError IE013 m))
     = (getIndexerCapacity e (h4 @ [Staking_getIndexerCapacity]) + allocatedTokens allocation < amt)"
  by (auto simp: reallocate_submit_def Let_def split: option.splits receipt.splits prod.splits)

text \<open>
  C7: a call to \<open>reallocate\<close> on an active allocation with \<open>T\<close> tokens that passes the
  earlier checks (not created in this epoch, POI resolved, active on chain, positive
  amount) reads the free stake \<open>F\<close> and fails with the insufficient-capacity error
  \<open>IE013\<close> exactly when the amount is not at most \<open>F + T\<close>, in unbounded integers.
\<close>

theorem reallocate_capacity_check:
  assumes "networkSubgraph_query e h1 = Some activeAllocations"
    and "toAddress e allocID = Some address"
    and "find (\<lambda>al. allocId al = address) activeAllocations = Some allocation"
    and "createdAtEpoch allocation \<noteq> currentEpoch e h2"
    and "networkMonitor_resolvePOI e h3 = Some allocationPOI"
    and "getAllocationState e h4 = 1"
    and "0 < amt"
    and "h1 = h @ [NetworkSubgraph_query]"
    and "h2 = h1 @ [EpochManager_currentEpoch]"
    and "h3 = h2 @ [NetworkMonitor_resolvePOI (allocId allocation) upoi frc]"
    and "h4 = h3 @ [Staking_getAllocationState (allocId allocation)]"
    and "h5 = h4 @ [Staking_getIndexerCapacity]"
    and "F = getIndexerCapacity e h5"
    and "T = allocatedTokens allocation"
  shows "((\<exists>m. fst (reallocate e allocID upoi amt frc h) = Inl (IndexerError IE013 m)) = (\<not> amt \<le> F + T))
         \<and> (\<not> amt \<le> F + T \<longrightarrow>
              reallocate e allocID upoi amt frc h =
                (Inl (IndexerError IE013 (Error (InsufficientFreeStakePlus amt F T))), h5))"
proof -
  have r: "reallocate e allocID upoi amt frc h =
             reallocate_submit e allocation activeAllocations allocationPOI (currentEpoch e h2) amt h4"
    using assms by (simp add: reallocate_def reallocate_try_def Let_def)
  have "(\<exists>m. fst (reallocate e allocID upoi amt frc h) = Inl (IndexerError IE013 m)) = (F + T < amt)"
    unfolding r reallocate_submit_IE013 using assms by simp
  moreover have "reallocate e allocID upoi amt frc h =
                (Inl (IndexerError IE013 (Error (InsufficientFreeStakePlus amt F T))), h5)"
    if "F + T < amt"
    unfolding r using that assms by (simp add: reallocate_submit_def Let_def)
  ultimately show ?thesis by auto
qed

text \<open>At the boundary: \<open>F = 50000\<close>, \<open>T = 100\<close>; 50101 is refused and 50100 is not.\<close>

theorem reallocate_capacity_check_witness:
  "fst (reallocate env0 (Some ''0xa1'') None 50101 False [])
     = Inl (IndexerError IE013 (Error (InsufficientFreeStakePlus 50101 50000 100)))
   \<and> \<not> (\<exists>m. fst (reallocate env0 (Some ''0xa1'') None 50100 False []) = Inl (IndexerError IE013 m))"
proof -
  note main = reallocate_capacity_check[where e = env0 and h = "[]" and allocID = "Some ''0xa1''"
      and upoi = None and frc = False and allocation = alloc1 and activeAllocations = "[alloc1]"
      and address = "''0xa1''" and allocationPOI = "''0xpoi''",
      OF _ _ _ _ _ _ _ refl refl refl refl refl refl refl]
  have q: "networkSubgraph_query env0 ([] @ [NetworkSubgraph_query]) = Some [alloc1]"
    by (simp add: env0_def)
  have a: "toAddress env0 (Some ''0xa1'') = Some ''0xa1''" by (simp add: env0_def)
  have f: "find (\<lambda>al. allocId al = ''0xa1'') [alloc1] = Some alloc1" by (simp add: alloc1_def)
  have ep: "createdAtEpoch alloc1 \<noteq> currentEpoch env0 (([] @ [NetworkSubgraph_query]) @ [EpochManager_currentEpoch])"
    by (simp add: env0_def alloc1_def)
  have p: "networkMonitor_resolvePOI env0
             ((([] @ [NetworkSubgraph_query]) @ [EpochManager_currentEpoch])
               @ [NetworkMonitor_resolvePOI (allocId alloc1) None False]) = Some ''0xpoi''"
    by (simp add: env0_def)
  have st: "getAllocationState env0
             (((([] @ [NetworkSubgraph_query]) @ [EpochManager_currentEpoch])
               @ [NetworkMonitor_resolvePOI (allocId alloc1) None False])
               @ [Staking_getAllocationState (allocId alloc1)]) = 1"
    by (simp add: env0_def alloc1_def)
  have F: "getIndexerCapacity env0 hh = 50000" for hh by (simp add: env0_def)
  have T: "allocatedTokens alloc1 = 100" by (simp add: alloc1_def)
  from main[OF q a f ep p st, of 50101] main[OF q a f ep p st, of 50100]
  show ?thesis by (simp add: F T)
qed

section \<open>Queueing: validation in the CLI, insertion in the resolver\<close>

lemma validate_two:
  "ty = ALLOCATE \<or> ty = REALLOCATE \<Longrightarrow>
   validateActionInput ty p =
     (if target p \<noteq> None \<and> param1 p \<noteq> None then Inr ()
      else Inl (Error (MissingRequiredParameters
             ((if target p = None then [''target''] else [])
              @ (if param1 p = None then [''param1''] else [])))))"
  by (auto simp: validateActionInput_def validateRequiredParams_def asRecord_def Let_def)

lemma validate_one:
  "ty = UNALLOCATE \<or> ty = COLLECT \<Longrightarrow>
   validateActionInput ty p =
     (if target p \<noteq> None then Inr ()
      else Inl (Error (MissingRequiredParameters [''target''])))"
  by (auto simp: validateActionInput_def validateRequiredParams_def asRecord_def Let_def)









text \<open>
  C10: when the required parameters are present, building an \<open>UNALLOCATE\<close> or
  \<open>REALLOCATE\<close> input succeeds whatever the force parameter is (\<open>param2\<close>,
  respectively \<open>param3\<close>), and \<open>force\<close> is true exactly when that parameter is the
  string \<open>true\<close>; an absent parameter or any other string gives false. The validation
  does not look at the force parameter.
\<close>

theorem buildActionInput_force_flag:
  "(target p \<noteq> None \<longrightarrow>
      (\<exists>a. buildActionInput UNALLOCATE p src rsn st prio = Inr (Some a)
           \<and> force a = Some (param2 p = Some ''true'')))
   \<and> (target p \<noteq> None \<longrightarrow> param1 p \<noteq> None \<longrightarrow>
      (\<exists>a. buildActionInput REALLOCATE p src rsn st prio = Inr (Some a)
           \<and> force a = Some (param3 p = Some ''true'')))
   \<and> validateActionInput UNALLOCATE (p\<lparr>param2 := x\<rparr>) = validateActionInput UNALLOCATE p
   \<and> validateActionInput REALLOCATE (p\<lparr>param3 := x\<rparr>) = validateActionInput REALLOCATE p"
  by (simp add: buildActionInput_def validate_one validate_two)

theorem buildActionInput_force_flag_witness:
  "(\<exists>a. buildActionInput UNALLOCATE
           \<lparr> target = Some ''0xa1'', param1 = None, param2 = Some ''true'', param3 = None \<rparr>
           ''indexerCLI'' ''manual'' QUEUED 0 = Inr (Some a) \<and> force a = Some True)
   \<and> (\<exists>a. buildActionInput UNALLOCATE
           \<lparr> target = Some ''0xa1'', param1 = None, param2 = Some ''TRUE'', param3 = None \<rparr>
           ''indexerCLI'' ''manual'' QUEUED 0 = Inr (Some a) \<and> force a = Some False)
   \<and> (\<exists>a. buildActionInput REALLOCATE
           \<lparr> target = Some ''0xa1'', param1 = Some ''27000'', param2 = None, param3 = None \<rparr>
           ''indexerCLI'' ''manual'' QUEUED 0 = Inr (Some a) \<and> force a = Some False)"
proof -
  let ?p = "\<lparr> target = Some ''0xa1'', param1 = None, param2 = Some ''true'', param3 = None \<rparr>"
  let ?q = "\<lparr> target = Some ''0xa1'', param1 = None, param2 = Some ''TRUE'', param3 = None \<rparr>"
  let ?r = "\<lparr> target = Some ''0xa1'', param1 = Some ''27000'', param2 = None, param3 = None \<rparr>"
  from buildActionInput_force_flag[of ?p "''indexerCLI''" "''manual''" QUEUED 0 None]
       buildActionInput_force_flag[of ?q "''indexerCLI''" "''manual''" QUEUED 0 None]
       buildActionInput_force_flag[of ?r "''indexerCLI''" "''manual''" QUEUED 0 None]
  show ?thesis by simp
qed

end
